theory Spec2Isabelle
  imports Complex_Main
begin

section \<open>The stub analyzer of \<open>src/models/analyzer.py\<close>\<close>

subsection \<open>Data model\<close>

text \<open>
  Python exceptions are values. \<open>KeyError\<close> is what a subscript \<open>d[k]\<close> on a dict
  without the key \<open>k\<close> raises; \<open>ValueError\<close>, with its message, is what the
  library-backed analyzer raises for a name it does not know, and what a library may
  raise too; \<open>LibraryError\<close> stands for an exception of any other class raised inside
  a library call, and carries the name of the class.
\<close>

datatype error = KeyError string | ValueError string | LibraryError string

type_synonym edge = "string \<times> string \<times> real"

text \<open>
  The fields of \<open>GraphAnalyzer\<close>: \<open>self.directed\<close>, the set \<open>self.nodes\<close>, the list
  \<open>self.edges\<close> of triples \<open>(source, target, weight)\<close> and the dict \<open>self.adjacency\<close>
  from a node to the list of its neighbours. Weights are Python floats, read as reals.
\<close>

record graph =
  directed :: bool
  nodes :: "string set"
  edges :: "edge list"
  adjacency :: "string \<rightharpoonup> string list"

text \<open>\<open>__init__(directed)\<close>: the empty graph.\<close>

definition init :: "bool \<Rightarrow> graph" where
  "init d = \<lparr>directed = d, nodes = {}, edges = [], adjacency = Map.empty\<rparr>"

subsection \<open>Graph store\<close>

text \<open>
  \<open>add_node\<close>: \<open>self.nodes.add(node)\<close>, then the adjacency entry is created only when
  the key is not there yet.
\<close>

definition add_node :: "graph \<Rightarrow> string \<Rightarrow> graph" where
  "add_node g node =
     (let g1 = g\<lparr>nodes := insert node (nodes g)\<rparr>
      in if adjacency g1 node = None
         then g1\<lparr>adjacency := (adjacency g1)(node \<mapsto> [])\<rparr>
         else g1)"

text \<open>
  \<open>self.adjacency[k].append(v)\<close>: the subscript raises \<open>KeyError\<close> when \<open>k\<close> is not a
  key; otherwise the list stored under \<open>k\<close> grows by \<open>v\<close> at its end.
\<close>

definition adjacency_append :: "graph \<Rightarrow> string \<Rightarrow> string \<Rightarrow> error + graph" where
  "adjacency_append g k v =
     (case adjacency g k of
        None \<Rightarrow> Inl (KeyError k)
      | Some l \<Rightarrow> Inr (g\<lparr>adjacency := (adjacency g)(k \<mapsto> l @ [v])\<rparr>))"

text \<open>
  \<open>add_edge\<close>: both endpoints are added as nodes, the triple is appended to the edge
  list, the target is appended to the source's adjacency list and, in an undirected
  graph, the source to the target's.
\<close>

definition add_edge :: "graph \<Rightarrow> string \<Rightarrow> string \<Rightarrow> real \<Rightarrow> error + graph" where
  "add_edge g source target weight =
     (let g1 = add_node g source;
          g2 = add_node g1 target;
          g3 = g2\<lparr>edges := edges g2 @ [(source, target, weight)]\<rparr>
      in case adjacency_append g3 source target of
           Inl e \<Rightarrow> Inl e
         | Inr g4 \<Rightarrow>
             if \<not> directed g4 then adjacency_append g4 target source else Inr g4)"

text \<open>
  A caller builds a graph by a sequence of \<open>add_node\<close> and \<open>add_edge\<close> calls; the
  sequence stops at the first exception, as the Python would.
\<close>

datatype call = AddNode string | AddEdge string string real

fun run :: "graph \<Rightarrow> call list \<Rightarrow> error + graph" where
  "run g [] = Inr g"
| "run g (AddNode n # cs) = run (add_node g n) cs"
| "run g (AddEdge s t w # cs) =
     (case add_edge g s t w of Inl e \<Rightarrow> Inl e | Inr g' \<Rightarrow> run g' cs)"

text \<open>
  The store's invariant: the endpoints of every stored edge are nodes, every key of
  the adjacency dict is a node, and every neighbour in an adjacency list is a node.
\<close>

definition graph_inv :: "graph \<Rightarrow> bool" where
  "graph_inv g \<longleftrightarrow>
     (\<forall>(s, t, w) \<in> set (edges g). s \<in> nodes g \<and> t \<in> nodes g) \<and>
     (\<forall>k l. adjacency g k = Some l \<longrightarrow> k \<in> nodes g \<and> set l \<subseteq> nodes g)"

subsection \<open>Iterating over the node set\<close>

text \<open>
  \<open>self.nodes\<close> is a Python set of strings: the order in which \<open>list(self.nodes)\<close> or a
  comprehension visits it is fixed by the interpreter's hash table (and, for strings, by
  the hash seed of the process), not by the program. The operations that depend on that
  order take the enumeration \<open>nodes_list\<close> as an argument; it is some list without
  repetition of exactly the nodes.
\<close>

definition iteration_of :: "graph \<Rightarrow> string list \<Rightarrow> bool" where
  "iteration_of g nodes_list \<longleftrightarrow> distinct nodes_list \<and> set nodes_list = nodes g"

subsection \<open>Centrality\<close>

text \<open>\<open>self.adjacency.get(node, [])\<close>.\<close>

definition nbrs :: "graph \<Rightarrow> string \<Rightarrow> string list" where
  "nbrs g k = (case adjacency g k of None \<Rightarrow> [] | Some l \<Rightarrow> l)"

text \<open>
  \<open>degree_centrality\<close>: a dict with one key per node. With at most one node every score
  is \<open>0.0\<close>; otherwise a node's score is the length of its adjacency list over \<open>n - 1\<close>
  (true division of two ints, read as a real).
\<close>

definition degree_centrality :: "graph \<Rightarrow> (string \<rightharpoonup> real)" where
  "degree_centrality g =
     (let n = card (nodes g)
      in if n \<le> 1 then (\<lambda>node. if node \<in> nodes g then Some 0 else None)
         else (\<lambda>node. if node \<in> nodes g
                 then Some (real (length (nbrs g node)) / real (n - 1))
                 else None))"

text \<open>
  \<open>random.uniform(0, 1)\<close> reads and advances the global generator of the \<open>random\<close>
  module. The generator is the sequence of values it has yet to return: a draw takes the
  first and leaves the rest.
\<close>

type_synonym rng = "nat \<Rightarrow> real"

definition uniform :: "rng \<Rightarrow> real \<times> rng" where
  "uniform r = (r 0, \<lambda>i. r (Suc i))"

text \<open>
  \<open>betweenness_centrality\<close>: the comprehension \<open>{node: random.uniform(0, 1) for node in
  self.nodes}\<close> visits the nodes in iteration order and draws one value for each.
\<close>

fun score_nodes :: "(string \<rightharpoonup> real) \<Rightarrow> string list \<Rightarrow> rng \<Rightarrow> (string \<rightharpoonup> real) \<times> rng" where
  "score_nodes acc [] r = (acc, r)"
| "score_nodes acc (node # ns) r =
     (case uniform r of (x, r') \<Rightarrow> score_nodes (acc(node \<mapsto> x)) ns r')"

definition betweenness_centrality :: "string list \<Rightarrow> rng \<Rightarrow> (string \<rightharpoonup> real) \<times> rng" where
  "betweenness_centrality nodes_list r = score_nodes Map.empty nodes_list r"

subsection \<open>Communities and paths\<close>

text \<open>
  \<open>detect_communities(method)\<close>: the node list is cut in the middle; \<open>method\<close> is not
  read. The function has no \<open>raise\<close>, so its result is always a returned value.
\<close>

definition detect_communities :: "string list \<Rightarrow> string \<Rightarrow> error + string set list" where
  "detect_communities nodes_list method =
     (let mid = length nodes_list div 2
      in Inr [set (take mid nodes_list), set (drop mid nodes_list)])"

text \<open>
  \<open>shortest_path(source, target)\<close>: \<open>None\<close> when an endpoint is not a node, the
  two-element list otherwise. It has no \<open>raise\<close> either.
\<close>

definition shortest_path :: "graph \<Rightarrow> string \<Rightarrow> string \<Rightarrow> error + string list option" where
  "shortest_path g source target =
     (if source \<notin> nodes g \<or> target \<notin> nodes g then Inr None
      else Inr (Some [source, target]))"

subsection \<open>Processing an edge list\<close>

text \<open>
  \<open>process(edges)\<close>: every pair is added with the default weight \<open>1.0\<close> to the graph
  the analyzer already holds, then the counts are read from the updated fields.
\<close>

fun add_edges :: "graph \<Rightarrow> (string \<times> string) list \<Rightarrow> error + graph" where
  "add_edges g [] = Inr g"
| "add_edges g (e # es) =
     (case add_edge g (fst e) (snd e) 1 of Inl x \<Rightarrow> Inl x | Inr g' \<Rightarrow> add_edges g' es)"

record report =
  num_nodes :: nat
  num_edges :: nat
  density :: real

definition process :: "graph \<Rightarrow> (string \<times> string) list \<Rightarrow> error + graph \<times> report" where
  "process g es =
     (case add_edges g es of
        Inl x \<Rightarrow> Inl x
      | Inr g' \<Rightarrow>
          Inr (g', \<lparr>num_nodes = card (nodes g'),
                    num_edges = length (edges g'),
                    density = (if card (nodes g') > 1
                               then real (length (edges g')) /
                                    real (card (nodes g') * (card (nodes g') - 1))
                               else 0)\<rparr>))"

section \<open>The library-backed analyzer of \<open>src/models/graph_analyzer.py\<close>\<close>







section \<open>Concrete graphs\<close>

text \<open>Two nodes joined by the same undirected edge twice.\<close>

definition parallel_pair :: graph where
  "parallel_pair = \<lparr>directed = False, nodes = {''a'', ''b''},
     edges = [(''a'', ''b'', 1), (''a'', ''b'', 1)],
     adjacency = [''a'' \<mapsto> [''b'', ''b''], ''b'' \<mapsto> [''a'', ''a'']]\<rparr>"

text \<open>One undirected edge and one isolated node.\<close>

definition edge_and_node :: graph where
  "edge_and_node = \<lparr>directed = False, nodes = {''c'', ''b'', ''a''},
     edges = [(''a'', ''b'', 1)],
     adjacency = [''a'' \<mapsto> [''b''], ''b'' \<mapsto> [''a''], ''c'' \<mapsto> []]\<rparr>"

text \<open>The nodes an edge list mentions.\<close>

definition endpoints :: "(string \<times> string) list \<Rightarrow> string set" where
  "endpoints es = fst ` set es \<union> snd ` set es"

text \<open>A single node; two nodes and no edge; two disjoint triangles.\<close>

definition single_node :: graph where
  "single_node = \<lparr>directed = False, nodes = {''a''}, edges = [], adjacency = [''a'' \<mapsto> []]\<rparr>"

definition two_isolated :: graph where
  "two_isolated = \<lparr>directed = False, nodes = {''a'', ''b''}, edges = [],
     adjacency = [''a'' \<mapsto> [], ''b'' \<mapsto> []]\<rparr>"

definition two_triangles :: graph where
  "two_triangles = \<lparr>directed = False,
     nodes = {''a'', ''b'', ''c'', ''d'', ''e'', ''f''},
     edges = [(''a'', ''b'', 1), (''b'', ''c'', 1), (''c'', ''a'', 1),
              (''d'', ''e'', 1), (''e'', ''f'', 1), (''f'', ''d'', 1)],
     adjacency = [''a'' \<mapsto> [''b'', ''c''], ''b'' \<mapsto> [''a'', ''c''], ''c'' \<mapsto> [''b'', ''a''],
                  ''d'' \<mapsto> [''e'', ''f''], ''e'' \<mapsto> [''d'', ''f''], ''f'' \<mapsto> [''e'', ''d'']]\<rparr>"

text \<open>A generator whose next value is 0 and whose later values are 1/2.\<close>

definition zero_then_half :: rng where
  "zero_then_half i = (if i = 0 then 0 else 1 / 2)"



section \<open>Notions of the specification\<close>





text \<open>
  Connected components, in the specification's words: two nodes lie in the same
  component when a sequence of nodes leads from one to the other, each next node being
  a neighbour of the one before.
\<close>

fun is_walk :: "graph \<Rightarrow> string list \<Rightarrow> bool" where
  "is_walk g [] = True"
| "is_walk g [v] = True"
| "is_walk g (u # v # p) = (v \<in> set (nbrs g u) \<and> is_walk g (v # p))"

definition same_component :: "graph \<Rightarrow> string \<Rightarrow> string \<Rightarrow> bool" where
  "same_component g a b \<longleftrightarrow> (\<exists>p. p \<noteq> [] \<and> hd p = a \<and> last p = b \<and> is_walk g p)"

section \<open>Properties of the graph store\<close>

lemma add_node_nodes [simp]: "nodes (add_node g n) = insert n (nodes g)"
  by (simp add: add_node_def Let_def)

lemma add_node_edges [simp]: "edges (add_node g n) = edges g"
  by (simp add: add_node_def Let_def)

lemma add_node_directed [simp]: "directed (add_node g n) = directed g"
  by (simp add: add_node_def Let_def)

lemma add_node_adjacency:
  "adjacency (add_node g n) k =
     (if k = n \<and> adjacency g n = None then Some [] else adjacency g k)"
  by (simp add: add_node_def Let_def)

lemma add_node_key: "adjacency (add_node g n) n \<noteq> None"
  by (simp add: add_node_adjacency)

lemma add_node_keeps_key: "adjacency g k \<noteq> None \<Longrightarrow> adjacency (add_node g n) k \<noteq> None"
  by (simp add: add_node_adjacency)

lemma add_node_inv: "graph_inv g \<Longrightarrow> graph_inv (add_node g n)"
  unfolding graph_inv_def
  by (auto simp: add_node_adjacency split: if_splits)

lemma adjacency_append_Inr:
  assumes "adjacency g k = Some l"
  shows "adjacency_append g k v = Inr (g\<lparr>adjacency := (adjacency g)(k \<mapsto> l @ [v])\<rparr>)"
  using assms by (simp add: adjacency_append_def)

lemma adjacency_append_inv:
  assumes "graph_inv g" and "k \<in> nodes g" and "v \<in> nodes g"
    and "adjacency_append g k v = Inr g'"
  shows "graph_inv g' \<and> nodes g' = nodes g \<and> edges g' = edges g \<and> directed g' = directed g"
proof (cases "adjacency g k")
  case None
  with assms(4) show ?thesis by (simp add: adjacency_append_def)
next
  case (Some l)
  with assms(4) have g': "g' = g\<lparr>adjacency := (adjacency g)(k \<mapsto> l @ [v])\<rparr>"
    by (simp add: adjacency_append_def)
  from assms(1) Some have "set l \<subseteq> nodes g"
    by (simp add: graph_inv_def)
  with assms(1,2,3) show ?thesis
    unfolding g' graph_inv_def by (auto split: if_splits)
qed

lemma adjacency_append_keys:
  assumes "adjacency_append g k v = Inr g'"
  shows "adjacency g' j \<noteq> None \<longleftrightarrow> adjacency g j \<noteq> None"
proof (cases "adjacency g k")
  case None
  with assms show ?thesis by (simp add: adjacency_append_def)
next
  case (Some l)
  with assms have "g' = g\<lparr>adjacency := (adjacency g)(k \<mapsto> l @ [v])\<rparr>"
    by (simp add: adjacency_append_def)
  with Some show ?thesis by (cases "j = k") simp_all
qed

lemma adjacency_append_total:
  assumes "adjacency g k \<noteq> None"
  shows "\<exists>g'. adjacency_append g k v = Inr g'"
  using assms by (auto simp: adjacency_append_def split: option.splits)

lemma add_edge_total: "\<exists>g'. add_edge g s t w = Inr g'"
proof -
  let ?g3 = "(add_node (add_node g s) t)\<lparr>edges := edges (add_node (add_node g s) t) @ [(s, t, w)]\<rparr>"
  have ks: "adjacency ?g3 s \<noteq> None"
    using add_node_keeps_key [OF add_node_key, of g s t] by simp
  have kt: "adjacency ?g3 t \<noteq> None"
    using add_node_key [of "add_node g s" t] by simp
  from adjacency_append_total [OF ks, of t]
  obtain g4 where g4: "adjacency_append ?g3 s t = Inr g4" by blast
  from adjacency_append_keys [OF g4, of t] kt have "adjacency g4 t \<noteq> None" by simp
  from adjacency_append_total [OF this, of s]
  obtain g5 where "adjacency_append g4 t s = Inr g5" by blast
  with g4 show ?thesis by (simp add: add_edge_def Let_def)
qed

lemma add_edge_result:
  assumes "add_edge g s t w = Inr g'"
  shows "nodes g' = insert s (insert t (nodes g))"
    and "edges g' = edges g @ [(s, t, w)]"
    and "directed g' = directed g"
    and "graph_inv g \<Longrightarrow> graph_inv g'"
proof -
  let ?g2 = "add_node (add_node g s) t"
  let ?g3 = "?g2\<lparr>edges := edges ?g2 @ [(s, t, w)]\<rparr>"
  from assms obtain g4 where g4: "adjacency_append ?g3 s t = Inr g4"
    and g': "(if \<not> directed g4 then adjacency_append g4 t s else Inr g4) = Inr g'"
    by (auto simp: add_edge_def Let_def split: sum.splits)
  have inv3: "graph_inv ?g3" if "graph_inv g"
  proof -
    from that have "graph_inv ?g2" by (intro add_node_inv)
    then show ?thesis unfolding graph_inv_def by auto
  qed
  have s3: "s \<in> nodes ?g3" and t3: "t \<in> nodes ?g3" by simp_all
  have frame4: "nodes g4 = nodes ?g3 \<and> edges g4 = edges ?g3 \<and> directed g4 = directed ?g3"
    using g4 by (auto simp: adjacency_append_def split: option.splits)
  have frame': "nodes g' = nodes g4 \<and> edges g' = edges g4 \<and> directed g' = directed g4"
    using g' by (auto simp: adjacency_append_def split: option.splits if_splits)
  from frame4 frame' show "nodes g' = insert s (insert t (nodes g))" by auto
  from frame4 frame' show "edges g' = edges g @ [(s, t, w)]" by simp
  from frame4 frame' show "directed g' = directed g" by simp
  show "graph_inv g'" if "graph_inv g"
  proof -
    from adjacency_append_inv [OF inv3 [OF that] s3 t3 g4]
    have inv4: "graph_inv g4" and n4: "nodes g4 = nodes ?g3" by simp_all
    show ?thesis
    proof (cases "directed g4")
      case True
      with g' inv4 show ?thesis by simp
    next
      case False
      with g' have "adjacency_append g4 t s = Inr g'" by simp
      from adjacency_append_inv [OF inv4 _ _ this] n4 show ?thesis by simp
    qed
  qed
qed

lemma init_inv: "graph_inv (init d)"
  by (simp add: graph_inv_def init_def)

lemma run_total_inv:
  "graph_inv g \<Longrightarrow> \<exists>g'. run g cs = Inr g' \<and> graph_inv g'"
proof (induction cs arbitrary: g)
  case Nil
  then show ?case by simp
next
  case (Cons c cs)
  show ?case
  proof (cases c)
    case (AddNode n)
    with Cons.IH [OF add_node_inv [OF Cons.prems], of n] show ?thesis by simp
  next
    case (AddEdge s t w)
    from add_edge_total obtain g1 where g1: "add_edge g s t w = Inr g1" by blast
    from add_edge_result(4) [OF g1 Cons.prems] have "graph_inv g1" .
    from Cons.IH [OF this] AddEdge g1 show ?thesis by simp
  qed
qed

text \<open>
  C7. Every sequence of \<open>add_node\<close>/\<open>add_edge\<close> calls on a fresh analyzer runs to the
  end and leaves a graph in which both endpoints of every stored edge are nodes and
  every adjacency key and every adjacency neighbour is a node; and \<open>add_edge\<close> on any
  graph returns normally with both endpoints in the node set and the edge appended.
\<close>

theorem reachable_graph_inv:
  "(\<exists>g. run (init d) cs = Inr g \<and> graph_inv g) \<and>
   (\<exists>g'. add_edge g0 s t w = Inr g' \<and> nodes g' = insert s (insert t (nodes g0)) \<and>
          edges g' = edges g0 @ [(s, t, w)])"
proof
  show "\<exists>g. run (init d) cs = Inr g \<and> graph_inv g"
    by (rule run_total_inv [OF init_inv])
next
  from add_edge_total obtain g' where "add_edge g0 s t w = Inr g'" by blast
  with add_edge_result(1,2) [OF this]
  show "\<exists>g'. add_edge g0 s t w = Inr g' \<and> nodes g' = insert s (insert t (nodes g0)) \<and>
          edges g' = edges g0 @ [(s, t, w)]" by blast
qed

theorem reachable_graph_inv_witness:
  "(\<exists>g. run (init False) [AddEdge ''a'' ''b'' 1, AddNode ''c''] = Inr g \<and> graph_inv g \<and>
        nodes g = {''c'', ''b'', ''a''} \<and> edges g = [(''a'', ''b'', 1)]) \<and>
   (\<exists>g'. add_edge (init True) ''x'' ''y'' 2 = Inr g' \<and> nodes g' = {''x'', ''y''} \<and>
          edges g' = [(''x'', ''y'', 2)])"
  using reachable_graph_inv [of False "[AddEdge ''a'' ''b'' 1, AddNode ''c'']"
      "init True" "''x''" "''y''" 2]
  by (simp add: add_edge_def add_node_def adjacency_append_def init_def Let_def)

section \<open>Degree centrality\<close>

lemma run_inv:
  assumes "graph_inv g" and "run g cs = Inr g'"
  shows "graph_inv g'"
  using run_total_inv [OF assms(1), of cs] assms(2) by auto

lemma run_finite:
  "finite (nodes g) \<Longrightarrow> run g cs = Inr g' \<Longrightarrow> finite (nodes g')"
proof (induction cs arbitrary: g)
  case Nil
  then show ?case by simp
next
  case (Cons c cs)
  show ?case
  proof (cases c)
    case (AddNode n)
    with Cons.prems have "run (add_node g n) cs = Inr g'" by simp
    from Cons.IH [OF _ this] Cons.prems(1) show ?thesis by simp
  next
    case (AddEdge s t w)
    with Cons.prems obtain g1 where g1: "add_edge g s t w = Inr g1" and r: "run g1 cs = Inr g'"
      by (auto split: sum.splits)
    from add_edge_result(1) [OF g1] Cons.prems(1) have "finite (nodes g1)" by simp
    from Cons.IH [OF this r] show ?thesis .
  qed
qed

lemma nbrs_subset:
  assumes "graph_inv g"
  shows "set (nbrs g v) \<subseteq> nodes g"
proof (cases "adjacency g v")
  case None
  then show ?thesis by (simp add: nbrs_def)
next
  case (Some l)
  with assms have "set l \<subseteq> nodes g" unfolding graph_inv_def by blast
  with Some show ?thesis by (simp add: nbrs_def)
qed

lemma simple_degree_bound:
  assumes "graph_inv g" and "finite (nodes g)" and "v \<in> nodes g"
    and "distinct (nbrs g v)" and "v \<notin> set (nbrs g v)"
  shows "length (nbrs g v) \<le> card (nodes g) - 1"
proof -
  from nbrs_subset [OF assms(1)] assms(5) have "set (nbrs g v) \<subseteq> nodes g - {v}" by auto
  with assms(2) have "card (set (nbrs g v)) \<le> card (nodes g - {v})"
    by (intro card_mono) auto
  with assms(3,4) show ?thesis by (simp add: distinct_card)
qed

lemma run_edge_and_node:
  "run (init False) [AddEdge ''a'' ''b'' 1, AddNode ''c''] = Inr edge_and_node"
  by (simp add: edge_and_node_def add_edge_def add_node_def adjacency_append_def init_def Let_def)

text \<open>
  C5, as stated, fails: adding the undirected edge \<open>a - b\<close> twice gives \<open>a\<close> two
  adjacency entries among two nodes, and the score \<open>2 / (2 - 1) = 2\<close> is above 1.
\<close>

theorem degree_centrality_parallel_edges:
  "run (init False) [AddEdge ''a'' ''b'' 1, AddEdge ''a'' ''b'' 1] = Inr parallel_pair \<and>
   degree_centrality parallel_pair ''a'' = Some 2 \<and> \<not> (2::real) \<le> 1"
  by (auto simp: parallel_pair_def add_edge_def add_node_def adjacency_append_def init_def Let_def
      degree_centrality_def nbrs_def)

text \<open>
  C5, amended. In every graph built by \<open>add_node\<close>/\<open>add_edge\<close> calls, every value of
  \<open>degree_centrality\<close> is at least 0; with at most one node every score is 0; and the
  score of a node is at most 1 when its adjacency list has no repeated entry and does
  not hold the node itself (no parallel edge and no self-loop at that node).
\<close>

theorem degree_centrality_bounds:
  assumes "run (init d) cs = Inr g" and "degree_centrality g v = Some x"
  shows "0 \<le> x \<and> (card (nodes g) \<le> 1 \<longrightarrow> x = 0) \<and>
         (distinct (nbrs g v) \<and> v \<notin> set (nbrs g v) \<longrightarrow> x \<le> 1)"
proof -
  have inv: "graph_inv g" by (rule run_inv [OF init_inv assms(1)])
  have fin: "finite (nodes g)" by (rule run_finite [OF _ assms(1)]) (simp add: init_def)
  from assms(2) have v: "v \<in> nodes g"
    by (auto simp: degree_centrality_def Let_def split: if_splits)
  show ?thesis
  proof (cases "card (nodes g) \<le> 1")
    case True
    with assms(2) show ?thesis by (auto simp: degree_centrality_def Let_def split: if_splits)
  next
    case False
    with assms(2) v have x: "x = real (length (nbrs g v)) / real (card (nodes g) - 1)"
      by (auto simp: degree_centrality_def Let_def split: if_splits)
    have "x \<le> 1" if "distinct (nbrs g v)" "v \<notin> set (nbrs g v)"
    proof -
      from simple_degree_bound [OF inv fin v that]
      have "real (length (nbrs g v)) \<le> real (card (nodes g) - 1)" by simp
      moreover from False have "0 < real (card (nodes g) - 1)" by simp
      ultimately show ?thesis unfolding x by (simp add: divide_le_eq)
    qed
    with False x show ?thesis by auto
  qed
qed

theorem degree_centrality_bounds_witness:
  "run (init False) [AddEdge ''a'' ''b'' 1, AddNode ''c''] = Inr edge_and_node \<and>
   degree_centrality edge_and_node ''a'' = Some (1 / 2) \<and>
   distinct (nbrs edge_and_node ''a'') \<and> ''a'' \<notin> set (nbrs edge_and_node ''a'') \<and>
   (0::real) \<le> 1 / 2 \<and> (1 / 2 :: real) \<le> 1"
proof -
  have c: "degree_centrality edge_and_node ''a'' = Some (1 / 2)"
    by (simp add: degree_centrality_def nbrs_def edge_and_node_def)
  have s: "distinct (nbrs edge_and_node ''a'') \<and> ''a'' \<notin> set (nbrs edge_and_node ''a'')"
    by (simp add: nbrs_def edge_and_node_def)
  from degree_centrality_bounds [OF run_edge_and_node c] s run_edge_and_node c
  show ?thesis by simp
qed

section \<open>Processing edge lists\<close>

lemma add_edges_result:
  "\<exists>g'. add_edges g es = Inr g' \<and> nodes g' = nodes g \<union> endpoints es \<and>
        edges g' = edges g @ map (\<lambda>e. (fst e, snd e, 1)) es \<and> directed g' = directed g"
proof (induction es arbitrary: g)
  case Nil
  then show ?case by (simp add: endpoints_def)
next
  case (Cons e es)
  from add_edge_total obtain g1 where g1: "add_edge g (fst e) (snd e) 1 = Inr g1" by blast
  note r = add_edge_result(1,2,3) [OF g1]
  from Cons.IH [of g1] obtain g' where g': "add_edges g1 es = Inr g'"
    and n: "nodes g' = nodes g1 \<union> endpoints es"
    and e: "edges g' = edges g1 @ map (\<lambda>e. (fst e, snd e, 1)) es"
    and d: "directed g' = directed g1" by blast
  have "add_edges g (e # es) = Inr g'" using g1 g' by simp
  moreover have "nodes g' = nodes g \<union> endpoints (e # es)"
    using n r(1) by (auto simp: endpoints_def)
  moreover have "edges g' = edges g @ map (\<lambda>e. (fst e, snd e, 1)) (e # es)"
    using e r(2) by simp
  moreover have "directed g' = directed g" using d r(3) by simp
  ultimately show ?case by blast
qed

lemma process_result:
  "\<exists>g' rep. process g es = Inr (g', rep) \<and> add_edges g es = Inr g' \<and>
      num_nodes rep = card (nodes g') \<and> num_edges rep = length (edges g') \<and>
      density rep = (if 1 < card (nodes g')
                     then real (length (edges g')) / (real (card (nodes g')) * (real (card (nodes g')) - 1))
                     else 0)"
proof -
  from add_edges_result obtain g' where g': "add_edges g es = Inr g'" by blast
  have "real (card (nodes g') * (card (nodes g') - 1)) = real (card (nodes g')) * (real (card (nodes g')) - 1)"
    if "1 < card (nodes g')"
    using that by (simp add: of_nat_diff)
  with g' show ?thesis by (simp add: process_def)
qed

text \<open>
  C8. For an undirected analyzer, \<open>process\<close> returns normally and the density it
  reports is \<open>m / (n (n - 1))\<close> when \<open>n > 1\<close> and 0 when \<open>n \<le> 1\<close>, for \<open>n\<close> the
  number of nodes and \<open>m\<close> the number of stored edges of the graph it leaves.
\<close>

theorem process_density:
  assumes "\<not> directed g"
  shows "\<exists>g' rep. process g es = Inr (g', rep) \<and> \<not> directed g' \<and>
     num_nodes rep = card (nodes g') \<and> num_edges rep = length (edges g') \<and>
     (1 < card (nodes g') \<longrightarrow>
        density rep = real (length (edges g')) / (real (card (nodes g')) * (real (card (nodes g')) - 1))) \<and>
     (card (nodes g') \<le> 1 \<longrightarrow> density rep = 0)"
proof -
  from process_result [of g es] obtain g' rep where p: "process g es = Inr (g', rep)"
    and a: "add_edges g es = Inr g'"
    and r: "num_nodes rep = card (nodes g')" "num_edges rep = length (edges g')"
      "density rep = (if 1 < card (nodes g')
                     then real (length (edges g')) / (real (card (nodes g')) * (real (card (nodes g')) - 1))
                     else 0)" by blast
  from add_edges_result [of g es] a assms have "\<not> directed g'" by auto
  with p r show ?thesis by auto
qed

theorem process_density_witness:
  "\<not> directed (init False) \<and>
   (\<exists>g'. process (init False) [(''a'', ''b''), (''b'', ''c'')] =
      Inr (g', \<lparr>num_nodes = 3, num_edges = 2, density = 2 / (3 * (3 - 1))\<rparr>)) \<and>
   (\<exists>g'. process (init False) [(''a'', ''a'')] =
      Inr (g', \<lparr>num_nodes = 1, num_edges = 1, density = 0\<rparr>))"
  using process_density [of "init False" "[(''a'', ''b''), (''b'', ''c'')]"]
    process_density [of "init False" "[(''a'', ''a'')]"]
  by (simp add: process_def add_edge_def add_node_def adjacency_append_def init_def Let_def)

text \<open>
  C9. \<open>process\<close> adds the given edges to the graph the analyzer already holds: the
  node set becomes the union of the old nodes and the endpoints supplied, the edge list
  the old edges followed by the new ones, and the counts and the density returned are
  those of the whole graph. A second call on the resulting analyzer reports the totals
  accumulated over both calls.
\<close>

theorem process_accumulates:
  "\<exists>g' rep. process g es = Inr (g', rep) \<and>
      nodes g' = nodes g \<union> endpoints es \<and>
      edges g' = edges g @ map (\<lambda>e. (fst e, snd e, 1)) es \<and>
      num_nodes rep = card (nodes g \<union> endpoints es) \<and>
      num_edges rep = length (edges g) + length es \<and>
      density rep = (if 1 < num_nodes rep
                     then real (num_edges rep) / (real (num_nodes rep) * (real (num_nodes rep) - 1))
                     else 0) \<and>
      (\<exists>g'' rep'. process g' es' = Inr (g'', rep') \<and>
         num_nodes rep' = card (nodes g \<union> endpoints es \<union> endpoints es') \<and>
         num_edges rep' = length (edges g) + length es + length es')"
proof -
  from process_result [of g es] obtain g' rep where p: "process g es = Inr (g', rep)"
    and a: "add_edges g es = Inr g'"
    and r: "num_nodes rep = card (nodes g')" "num_edges rep = length (edges g')"
      "density rep = (if 1 < card (nodes g')
                     then real (length (edges g')) / (real (card (nodes g')) * (real (card (nodes g')) - 1))
                     else 0)" by blast
  from add_edges_result [of g es] a
  have n: "nodes g' = nodes g \<union> endpoints es"
    and e: "edges g' = edges g @ map (\<lambda>e. (fst e, snd e, 1)) es" by auto
  from process_result [of g' es'] obtain g'' rep' where p': "process g' es' = Inr (g'', rep')"
    and a': "add_edges g' es' = Inr g''"
    and r': "num_nodes rep' = card (nodes g'')" "num_edges rep' = length (edges g'')" by blast
  from add_edges_result [of g' es'] a'
  have n': "nodes g'' = nodes g' \<union> endpoints es'"
    and e': "edges g'' = edges g' @ map (\<lambda>e. (fst e, snd e, 1)) es'" by auto
  from p p' r r' n e n' e' show ?thesis by simp
qed

theorem process_accumulates_witness:
  "\<exists>g' rep. process edge_and_node [(''c'', ''d'')] = Inr (g', rep) \<and>
      nodes g' = {''c'', ''b'', ''a'', ''d''} \<and>
      edges g' = [(''a'', ''b'', 1), (''c'', ''d'', 1)] \<and>
      num_nodes rep = 4 \<and> num_edges rep = 2 \<and>
      (\<exists>g'' rep'. process g' [(''a'', ''d'')] = Inr (g'', rep') \<and>
         num_nodes rep' = 4 \<and> num_edges rep' = 3)"
proof -
  have c: "card {''c'', ''b'', ''a'', ''d''} = 4" by simp
  from process_accumulates [of edge_and_node "[(''c'', ''d'')]" "[(''a'', ''d'')]"]
  obtain g' rep g'' rep' where "process edge_and_node [(''c'', ''d'')] = Inr (g', rep)"
    and "nodes g' = nodes edge_and_node \<union> endpoints [(''c'', ''d'')]"
    and "edges g' = edges edge_and_node @ [(''c'', ''d'', 1)]"
    and "num_nodes rep = card (nodes edge_and_node \<union> endpoints [(''c'', ''d'')])"
    and "num_edges rep = length (edges edge_and_node) + 1"
    and "process g' [(''a'', ''d'')] = Inr (g'', rep')"
    and "num_nodes rep' = card (nodes edge_and_node \<union> endpoints [(''c'', ''d'')] \<union> endpoints [(''a'', ''d'')])"
    and "num_edges rep' = length (edges edge_and_node) + 1 + 1"
    by auto
  moreover have "nodes edge_and_node \<union> endpoints [(''c'', ''d'')] = {''c'', ''b'', ''a'', ''d''}"
    by (auto simp: edge_and_node_def endpoints_def)
  moreover have "nodes edge_and_node \<union> endpoints [(''c'', ''d'')] \<union> endpoints [(''a'', ''d'')]
      = {''c'', ''b'', ''a'', ''d''}"
    by (auto simp: edge_and_node_def endpoints_def)
  moreover have "edges edge_and_node = [(''a'', ''b'', 1)]" by (simp add: edge_and_node_def)
  ultimately show ?thesis using c by auto
qed

section \<open>Shortest paths\<close>

text \<open>
  C3, as stated, fails: with neither node in the graph the call returns the value
  \<open>None\<close>; it does not fail.
\<close>

theorem shortest_path_absent_returns_none:
  "shortest_path (init False) ''a'' ''b'' = Inr None"
  by (simp add: shortest_path_def init_def)

text \<open>
  C3, amended. If the source or the target is not in the node set, \<open>shortest_path\<close>
  returns \<open>None\<close> to the caller.
\<close>

theorem shortest_path_absent:
  assumes "source \<notin> nodes g \<or> target \<notin> nodes g"
  shows "shortest_path g source target = Inr None"
  using assms by (auto simp: shortest_path_def)

theorem shortest_path_absent_witness:
  "''a'' \<in> nodes edge_and_node \<and> ''z'' \<notin> nodes edge_and_node \<and>
   shortest_path edge_and_node ''a'' ''z'' = Inr None"
proof -
  have h: "''a'' \<in> nodes edge_and_node" "''z'' \<notin> nodes edge_and_node"
    by (simp_all add: edge_and_node_def)
  from h(2) have "''a'' \<notin> nodes edge_and_node \<or> ''z'' \<notin> nodes edge_and_node" ..
  from shortest_path_absent [OF this] h show ?thesis by simp
qed

lemma two_isolated_no_nbrs: "nbrs two_isolated v = []"
  by (simp add: nbrs_def two_isolated_def)

text \<open>
  C2 on the code. After \<open>add_node('a')\<close> and \<open>add_node('b')\<close> the graph has no edge
  and the two nodes lie in different components, yet \<open>shortest_path('a', 'b')\<close>
  returns the list \<open>['a', 'b']\<close> and not \<open>None\<close>.
\<close>

theorem shortest_path_ignores_edges:
  "run (init False) [AddNode ''a'', AddNode ''b''] = Inr two_isolated \<and>
   shortest_path two_isolated ''a'' ''b'' = Inr (Some [''a'', ''b'']) \<and>
   \<not> same_component two_isolated ''a'' ''b''"
proof -
  have r: "run (init False) [AddNode ''a'', AddNode ''b''] = Inr two_isolated"
    by (auto simp: two_isolated_def init_def add_node_def)
  have s: "shortest_path two_isolated ''a'' ''b'' = Inr (Some [''a'', ''b''])"
    by (simp add: shortest_path_def two_isolated_def)
  have "\<not> same_component two_isolated ''a'' ''b''"
  proof
    assume "same_component two_isolated ''a'' ''b''"
    then obtain p where p: "p \<noteq> []" "hd p = ''a''" "last p = ''b''" "is_walk two_isolated p"
      unfolding same_component_def by blast
    show False
    proof (cases p)
      case Nil
      with p(1) show False by simp
    next
      case (Cons u q)
      show False
      proof (cases q)
        case Nil
        with Cons p(2,3) show False by simp
      next
        case (Cons v q')
        with \<open>p = u # q\<close> p(4) show False by (simp add: two_isolated_no_nbrs)
      qed
    qed
  qed
  with r s show ?thesis by simp
qed

theorem shortest_path_ignores_edges_witness:
  "''a'' \<in> nodes two_isolated \<and> ''b'' \<in> nodes two_isolated \<and>
   edges two_isolated = [] \<and>
   shortest_path two_isolated ''a'' ''b'' = Inr (Some [''a'', ''b'']) \<and>
   shortest_path two_isolated ''a'' ''b'' \<noteq> Inr None"
  using shortest_path_ignores_edges by (simp add: two_isolated_def)

section \<open>Betweenness centrality\<close>

text \<open>
  C1 on the code. On the graph with the single node \<open>a\<close>, a first call of
  \<open>betweenness_centrality\<close> gives \<open>a\<close> the generator's next value and a second call,
  made on the same graph with the generator as the first left it, the value after
  that: here 0, then 1/2.
\<close>

theorem betweenness_not_reproducible:
  "run (init False) [AddNode ''a''] = Inr single_node \<and>
   iteration_of single_node [''a''] \<and>
   fst (betweenness_centrality [''a''] zero_then_half) ''a'' = Some 0 \<and>
   fst (betweenness_centrality [''a''] (snd (betweenness_centrality [''a''] zero_then_half))) ''a''
     = Some (1 / 2)"
  by (simp add: single_node_def init_def add_node_def iteration_of_def betweenness_centrality_def
      uniform_def zero_then_half_def)

section \<open>Community detection\<close>

lemma add_edge_undirected:
  assumes "\<not> directed g"
  shows "add_edge g s t w =
     Inr \<lparr>directed = False, nodes = insert s (insert t (nodes g)),
          edges = edges g @ [(s, t, w)],
          adjacency = (adjacency g)(s \<mapsto> nbrs g s @ [t],
                                    t \<mapsto> (if t = s then nbrs g s @ [t] else nbrs g t) @ [s])\<rparr>"
  using assms
  by (cases g; cases "adjacency g s"; cases "adjacency g t"; cases "t = s")
    (simp_all add: add_edge_def add_node_def adjacency_append_def Let_def nbrs_def fun_upd_twist
      insert_commute)

lemma run_two_triangles:
  "run (init False) [AddEdge ''a'' ''b'' 1, AddEdge ''b'' ''c'' 1, AddEdge ''c'' ''a'' 1,
                     AddEdge ''d'' ''e'' 1, AddEdge ''e'' ''f'' 1, AddEdge ''f'' ''d'' 1]
     = Inr two_triangles"
proof -
  have n: "{''f'', ''d'', ''e'', ''f'', ''d'', ''e'', ''c'', ''a'', ''b'', ''c'', ''a'', ''b''} =
     {''a'', ''b'', ''c'', ''d'', ''e'', ''f''}" by auto
  have a: "[''b'' \<mapsto> [''a'', ''c''], ''c'' \<mapsto> [''b'', ''a''], ''a'' \<mapsto> [''b'', ''c''],
      ''e'' \<mapsto> [''d'', ''f''], ''f'' \<mapsto> [''e'', ''d''], ''d'' \<mapsto> [''e'', ''f'']] =
     [''a'' \<mapsto> [''b'', ''c''], ''b'' \<mapsto> [''a'', ''c''], ''c'' \<mapsto> [''b'', ''a''],
      ''d'' \<mapsto> [''e'', ''f''], ''e'' \<mapsto> [''d'', ''f''], ''f'' \<mapsto> [''e'', ''d'']]"
    by (rule ext) simp
  show ?thesis
    by (simp add: add_edge_undirected two_triangles_def init_def nbrs_def n a)
qed

lemma mixed_half_not_triangle:
  "{''a'', ''d'', ''b''} \<noteq> {''a'', ''b'', ''c''}" "{''a'', ''d'', ''b''} \<noteq> {''d'', ''e'', ''f''}"
proof -
  show "{''a'', ''d'', ''b''} \<noteq> {''a'', ''b'', ''c''}"
  proof
    assume e: "{''a'', ''d'', ''b''} = {''a'', ''b'', ''c''}"
    have "''d'' \<in> {''a'', ''d'', ''b''}" by simp
    with e have "''d'' \<in> {''a'', ''b'', ''c''}" by (simp only:)
    then show False by simp
  qed
  show "{''a'', ''d'', ''b''} \<noteq> {''d'', ''e'', ''f''}"
  proof
    assume e: "{''a'', ''d'', ''b''} = {''d'', ''e'', ''f''}"
    have "''a'' \<in> {''a'', ''d'', ''b''}" by simp
    with e have "''a'' \<in> {''d'', ''e'', ''f''}" by (simp only:)
    then show False by simp
  qed
qed

text \<open>
  C4 on the code. For the two disjoint triangles \<open>a b c\<close> and \<open>d e f\<close>, when the node
  set is visited in the order \<open>a d b e c f\<close>, \<open>detect_communities\<close> returns the halves
  \<open>{a, d, b}\<close> and \<open>{e, c, f}\<close>; the first is neither triangle.
\<close>

theorem detect_communities_splits_triangles:
  "run (init False) [AddEdge ''a'' ''b'' 1, AddEdge ''b'' ''c'' 1, AddEdge ''c'' ''a'' 1,
                     AddEdge ''d'' ''e'' 1, AddEdge ''e'' ''f'' 1, AddEdge ''f'' ''d'' 1]
     = Inr two_triangles \<and>
   iteration_of two_triangles [''a'', ''d'', ''b'', ''e'', ''c'', ''f''] \<and>
   detect_communities [''a'', ''d'', ''b'', ''e'', ''c'', ''f''] ''louvain''
     = Inr [{''a'', ''d'', ''b''}, {''e'', ''c'', ''f''}] \<and>
   {''a'', ''d'', ''b''} \<noteq> {''a'', ''b'', ''c''} \<and> {''a'', ''d'', ''b''} \<noteq> {''d'', ''e'', ''f''}"
proof -
  have i: "iteration_of two_triangles [''a'', ''d'', ''b'', ''e'', ''c'', ''f'']"
    by (auto simp: iteration_of_def two_triangles_def)
  have d: "detect_communities [''a'', ''d'', ''b'', ''e'', ''c'', ''f''] ''louvain''
     = Inr [{''a'', ''d'', ''b''}, {''e'', ''c'', ''f''}]"
    by (simp add: detect_communities_def)
  from run_two_triangles i d mixed_half_not_triangle show ?thesis by (simp only: simp_thms)
qed

text \<open>
  C10. The result of the stub \<open>detect_communities\<close> does not depend on the method
  string and is always a returned value; for any enumeration of the node set the two
  sets returned are disjoint and their union is the node set.
\<close>

theorem detect_communities_ignores_method:
  "detect_communities ns m1 = detect_communities ns m2 \<and>
   (\<exists>A B. detect_communities ns m1 = Inr [A, B] \<and>
      (iteration_of g ns \<longrightarrow> A \<inter> B = {} \<and> A \<union> B = nodes g))"
proof -
  let ?mid = "length ns div 2"
  have d: "set (take ?mid ns) \<inter> set (drop ?mid ns) = {}" if "distinct ns"
    using that set_take_disj_set_drop_if_distinct [of ns ?mid ?mid] by simp
  have u: "set (take ?mid ns) \<union> set (drop ?mid ns) = set ns"
    using set_append [of "take ?mid ns" "drop ?mid ns"] by simp
  show ?thesis
    using d u by (auto simp: detect_communities_def iteration_of_def Let_def)
qed

theorem detect_communities_ignores_method_witness:
  "iteration_of edge_and_node [''b'', ''c'', ''a''] \<and>
   detect_communities [''b'', ''c'', ''a''] ''louvain'' = Inr [{''b''}, {''c'', ''a''}] \<and>
   detect_communities [''b'', ''c'', ''a''] ''no such method'' = Inr [{''b''}, {''c'', ''a''}] \<and>
   {''b''} \<inter> {''c'', ''a''} = ({} :: string set) \<and> {''b''} \<union> {''c'', ''a''} = nodes edge_and_node"
proof -
  have i: "iteration_of edge_and_node [''b'', ''c'', ''a'']"
    by (auto simp: iteration_of_def edge_and_node_def)
  have e: "detect_communities [''b'', ''c'', ''a''] m = Inr [{''b''}, {''c'', ''a''}]" for m
    by (simp add: detect_communities_def)
  from detect_communities_ignores_method [of "[''b'', ''c'', ''a'']" "''louvain''" "''no such method''" edge_and_node]
    i e show ?thesis by auto
qed

section \<open>Unrecognised names\<close>




end
